theory Spec2Isabelle
  imports Complex_Main "HOL-Library.Sublist" "HOL-Library.Multiset"
begin

section \<open>Deduplication cache (src/utils/debouncer.ts, createDedupeCache)\<close>

text \<open>
  The cache is a JavaScript \<open>Map<string, number>\<close>: keys are unique and iteration follows
  insertion order, so it is modelled as an association list in insertion order.
  Timestamps and \<open>ttlMs\<close> are millisecond counts (\<open>int\<close>); \<open>maxSize\<close> is a number of
  entries (\<open>nat\<close>).
\<close>

type_synonym cache = "(string \<times> int) list"

record DedupeCacheOptions =
  ttlMs :: int
  maxSize :: nat

definition cache_get :: "cache \<Rightarrow> string \<Rightarrow> int option" where
  "cache_get c k = map_of c k"

text \<open>\<open>Map.set\<close>: an existing key keeps its position, a new key goes last.\<close>

fun cache_set :: "cache \<Rightarrow> string \<Rightarrow> int \<Rightarrow> cache" where
  "cache_set [] k v = [(k, v)]"
| "cache_set ((k', v') # c) k v =
     (if k' = k then (k, v) # c else (k', v') # cache_set c k v)"

definition cache_delete :: "cache \<Rightarrow> string \<Rightarrow> cache" where
  "cache_delete c k = filter (\<lambda>e. fst e \<noteq> k) c"

text \<open>A \<open>for\<close> loop that calls \<open>cache.delete(key)\<close> for each key of a list.\<close>

definition delete_each :: "string list \<Rightarrow> cache \<Rightarrow> cache" where
  "delete_each ks c = fold (\<lambda>k m. cache_delete m k) ks c"

text \<open>
  \<open>prune(now)\<close>: first every entry with \<open>now - timestamp > ttlMs\<close> is deleted; then, if
  the size still exceeds \<open>maxSize\<close>, the entries are sorted by timestamp (a stable sort,
  oldest first) and the first \<open>size - maxSize\<close> of them are deleted.
\<close>

definition prune :: "DedupeCacheOptions \<Rightarrow> int \<Rightarrow> cache \<Rightarrow> cache" where
  "prune opts now c =
     (let c1 = delete_each (map fst (filter (\<lambda>e. now - snd e > ttlMs opts) c)) c
      in if length c1 > maxSize opts
         then let sorted = sort_key snd c1;
                  toDelete = take (length c1 - maxSize opts) sorted
              in delete_each (map fst toDelete) c1
         else c1)"


text \<open>
  \<open>check(key, now)\<close>: the key is \<open>string | undefined | null\<close>; \<open>!key\<close> holds for
  \<open>null\<close>, \<open>undefined\<close> and the empty string. The result is the returned flag and the
  cache after the call.
\<close>

definition check :: "DedupeCacheOptions \<Rightarrow> string option \<Rightarrow> int \<Rightarrow> cache \<Rightarrow> bool \<times> cache" where
  "check opts key now c =
     (case key of
        None \<Rightarrow> (False, c)
      | Some k \<Rightarrow>
          if k = [] then (False, c)
          else (case cache_get c k of
                  Some existing \<Rightarrow>
                    if now - existing < ttlMs opts
                    then (True, cache_set c k now)
                    else (False, prune opts now (cache_set c k now))
                | None \<Rightarrow> (False, prune opts now (cache_set c k now))))"

text \<open>A sequence of \<open>check\<close> calls on one cache, each with its key and its clock value.\<close>

definition checks :: "DedupeCacheOptions \<Rightarrow> (string option \<times> int) list \<Rightarrow> cache \<Rightarrow> cache" where
  "checks opts calls c = fold (\<lambda>call m. snd (check opts (fst call) (snd call) m)) calls c"

text \<open>\<open>createDedupeCache\<close> starts from the empty map.\<close>

definition createDedupeCache :: cache where
  "createDedupeCache = []"

section \<open>Shared JavaScript notions\<close>

text \<open>
  Text is modelled as \<open>string\<close> (a list of 8-bit characters). A thrown value is a
  \<open>js_error\<close>; a settled promise of type \<open>Promise<void>\<close> is either fulfilled or rejected
  with the thrown value.
\<close>

datatype js_error = Error string | SyntaxError string

datatype settled = Fulfilled | Rejected js_error

text \<open>Truthiness of a \<open>string | null | undefined\<close>: only a non-empty string is truthy.\<close>

definition truthy :: "string option \<Rightarrow> bool" where
  "truthy v = (case v of None \<Rightarrow> False | Some s \<Rightarrow> s \<noteq> [])"

text \<open>\<open>String.prototype.includes\<close>: the needle occurs as a contiguous substring.\<close>

fun str_includes :: "string \<Rightarrow> string \<Rightarrow> bool" where
  "str_includes [] needle = (needle = [])"
| "str_includes (c # s) needle = (prefix needle (c # s) \<or> str_includes s needle)"

text \<open>The regular-expression class \<open>\d\<close> (ASCII digits only).\<close>

definition digit :: "char \<Rightarrow> bool" where
  "digit c = (c \<in> set ''0123456789'')"

section \<open>Identity resolver (src/channels/whatsapp/outbound.ts, resolveSendJid)\<close>

record LidMapper =
  selfChatLid :: string
  myNumber :: string
  lidToJid :: "string \<rightharpoonup> string"

text \<open>
  Of the socket only \<open>sock.signalRepository?.lidMapping\<close> is read; both the repository and
  its \<open>lidMapping\<close> table may be absent.
\<close>

record SignalRepository =
  lidMapping :: "(string \<rightharpoonup> string) option"

record WASocket =
  signalRepository :: "SignalRepository option"

definition isLid :: "string option \<Rightarrow> bool" where
  "isLid remoteJid =
     (case remoteJid of
        None \<Rightarrow> False
      | Some j \<Rightarrow> if j = [] then False else str_includes j ''@lid'')"

text \<open>\<open>signalRepo?.lidMapping?.get(chatId)\<close>\<close>

definition signalLookup :: "WASocket \<Rightarrow> string \<Rightarrow> string option" where
  "signalLookup sock chatId =
     (case signalRepository sock of
        None \<Rightarrow> None
      | Some repo \<Rightarrow> (case lidMapping repo of None \<Rightarrow> None | Some m \<Rightarrow> m chatId))"

text \<open>
  \<open>resolveSendJid\<close> returns the address to send to, or throws. The \<open>console.error\<close> line
  before the throw is not modelled.
\<close>

definition resolveSendJid :: "string \<Rightarrow> WASocket \<Rightarrow> LidMapper \<Rightarrow> js_error + string" where
  "resolveSendJid chatId sock lidMapper =
     (if \<not> isLid (Some chatId) then Inr chatId
      else if chatId = selfChatLid lidMapper \<and> myNumber lidMapper \<noteq> []
        then Inr (myNumber lidMapper @ ''@s.whatsapp.net'')
      else (case (let signalMapping = signalLookup sock chatId
                  in if truthy signalMapping then signalMapping else None) of
              Some signalMapping \<Rightarrow> Inr signalMapping
            | None \<Rightarrow>
               (case (let manualMapping = lidToJid lidMapper chatId
                      in if truthy manualMapping then manualMapping else None) of
                  Some manualMapping \<Rightarrow> Inr manualMapping
                | None \<Rightarrow> Inl (Error ''Cannot send to unknown LID - no mapping found''))))"

section \<open>Mention detection (src/channels/whatsapp/inbound/mentions.ts)\<close>

record MentionConfig =
  mentionPatterns :: "string list"
  selfE164 :: "string option"
  selfJid :: "string option"
  selfLid :: "string option"

datatype mention_method = Jid | Regex | E164 | Reply

text \<open>The result's field \<open>method\<close> is named \<open>methodUsed\<close> here.\<close>

record MentionDetectionResult =
  wasMentioned :: bool
  implicitMention :: bool
  methodUsed :: "mention_method option"

record MentionParams =
  body :: string
  mentionedJids :: "string list option"
  replyToSenderJid :: "string option"
  replyToSenderE164 :: "string option"
  config :: MentionConfig

text \<open>
  \<open>jid.replace(/:\d+(@|$)/, '$1')\<close>: the leftmost \<open>:\<close> that is followed by at least one
  digit and then by \<open>@\<close> or the end of the string is removed together with its digits.
  Only the first match is replaced (the expression has no \<open>g\<close> flag).
\<close>

fun strip_device :: "string \<Rightarrow> string" where
  "strip_device [] = []"
| "strip_device (c # s) =
     (if c = CHR '':''
        \<and> takeWhile digit s \<noteq> []
        \<and> (case dropWhile digit s of [] \<Rightarrow> True | d # _ \<Rightarrow> d = CHR ''@'')
      then dropWhile digit s
      else c # strip_device s)"

definition normalizeJid :: "string option \<Rightarrow> string" where
  "normalizeJid jid =
     (case jid of None \<Rightarrow> [] | Some j \<Rightarrow> if j = [] then [] else strip_device j)"

text \<open>
  \<open>normalizeMentionText\<close> is \<open>text.trim()\<close> followed by the removal of the zero-width
  characters U+200B to U+200D and U+FEFF. Those characters lie outside the 8-bit
  character type, so on modelled text only the trimming has an effect.
\<close>

definition whitespace :: "char \<Rightarrow> bool" where
  "whitespace c = (c \<in> {CHR 0x09, CHR 0x0A, CHR 0x0B, CHR 0x0C, CHR 0x0D, CHR 0x20, CHR 0xA0})"

definition trim :: "string \<Rightarrow> string" where
  "trim s = rev (dropWhile whitespace (rev (dropWhile whitespace s)))"

definition normalizeMentionText :: "string \<Rightarrow> string" where
  "normalizeMentionText text = trim text"

text \<open>
  The regular-expression engine is a parameter: \<open>regex_test pattern text\<close> is \<open>None\<close> when
  \<open>new RegExp(pattern, 'i')\<close> throws, and otherwise the result of \<open>regex.test(text)\<close>.
  The loop skips an invalid pattern (after a console warning) and stops at the first match.
\<close>

fun pattern_loop :: "(string \<Rightarrow> string \<Rightarrow> bool option) \<Rightarrow> string list \<Rightarrow> string \<Rightarrow> bool" where
  "pattern_loop regex_test [] bodyClean = False"
| "pattern_loop regex_test (pattern # rest) bodyClean =
     (case regex_test pattern bodyClean of
        Some True \<Rightarrow> True
      | _ \<Rightarrow> pattern_loop regex_test rest bodyClean)"

definition detectMention ::
  "(string \<Rightarrow> string \<Rightarrow> bool option) \<Rightarrow> MentionParams \<Rightarrow> MentionDetectionResult" where
  "detectMention regex_test params =
     (let cfg = config params in
      if (case mentionedJids params of None \<Rightarrow> False | Some js \<Rightarrow> length js > 0)
      then
        (let selfJidNorm = normalizeJid (selfJid cfg);
             selfLidNorm = normalizeJid (selfLid cfg);
             mentioned = list_ex
               (\<lambda>jid. let jidNorm = normalizeJid (Some jid)
                      in jidNorm = selfJidNorm \<or> jidNorm = selfLidNorm)
               (case mentionedJids params of None \<Rightarrow> [] | Some js \<Rightarrow> js)
         in if mentioned
            then \<lparr>wasMentioned = True, implicitMention = False, methodUsed = Some Jid\<rparr>
            else \<lparr>wasMentioned = False, implicitMention = False, methodUsed = None\<rparr>)
      else
        (let bodyClean = normalizeMentionText (body params) in
         if pattern_loop regex_test (mentionPatterns cfg) bodyClean
         then \<lparr>wasMentioned = True, implicitMention = False, methodUsed = Some Regex\<rparr>
         else if (case selfE164 cfg of
                    None \<Rightarrow> False
                  | Some e \<Rightarrow> e \<noteq> [] \<and> str_includes (filter digit bodyClean) (filter digit e))
         then \<lparr>wasMentioned = True, implicitMention = False, methodUsed = Some E164\<rparr>
         else
           (let selfJidNorm = normalizeJid (selfJid cfg);
                selfLidNorm = normalizeJid (selfLid cfg);
                replyJidNorm = normalizeJid (replyToSenderJid params);
                isReplyToBot =
                  ((replyJidNorm \<noteq> [] \<and> (replyJidNorm = selfJidNorm \<or> replyJidNorm = selfLidNorm))
                   \<or> (truthy (selfE164 cfg) \<and> truthy (replyToSenderE164 params)
                       \<and> selfE164 cfg = replyToSenderE164 params))
            in if isReplyToBot
               then \<lparr>wasMentioned = True, implicitMention = True, methodUsed = Some Reply\<rparr>
               else \<lparr>wasMentioned = False, implicitMention = False, methodUsed = None\<rparr>)))"

section \<open>Backoff engine (computeBackoff)\<close>

text \<open>
  A JavaScript number is a finite value, one of the two infinities, or \<open>NaN\<close>. The
  arithmetic follows IEEE 754 in its special cases: a result at or beyond the overflow
  threshold \<open>2^1024 - 2^970\<close> becomes an infinity, infinity times zero and the difference
  of infinities are \<open>NaN\<close>, and \<open>NaN\<close> propagates. Three things are idealised and stated
  here: a finite result is kept exact (its rounding to 53 significant bits is not
  modelled), underflow to zero is not modelled, and the sign of zero is ignored.
  \<open>Math.random()\<close> is the parameter \<open>random\<close>, a finite value in \<open>[0, 1)\<close>; the attempt
  number is an integer.
\<close>

datatype jsnum = Num real | PosInf | NegInf | NaN

definition overflow_threshold :: real where
  "overflow_threshold = 2 ^ 1024 - 2 ^ 970"

definition finite_result :: "real \<Rightarrow> jsnum" where
  "finite_result r =
     (if overflow_threshold \<le> r then PosInf
      else if r \<le> - overflow_threshold then NegInf
      else Num r)"

text \<open>The sign of a number that is not \<open>NaN\<close>: 1, 0 or -1.\<close>

definition js_sign :: "jsnum \<Rightarrow> real" where
  "js_sign x = (case x of Num a \<Rightarrow> sgn a | PosInf \<Rightarrow> 1 | NegInf \<Rightarrow> - 1 | NaN \<Rightarrow> 0)"

definition js_mul :: "jsnum \<Rightarrow> jsnum \<Rightarrow> jsnum" where
  "js_mul x y =
     (if x = NaN \<or> y = NaN then NaN
      else case (x, y) of
        (Num a, Num b) \<Rightarrow> finite_result (a * b)
      | _ \<Rightarrow>
          if js_sign x * js_sign y = 0 then NaN
          else if 0 < js_sign x * js_sign y then PosInf
          else NegInf)"

definition js_add :: "jsnum \<Rightarrow> jsnum \<Rightarrow> jsnum" where
  "js_add x y =
     (if x = NaN \<or> y = NaN then NaN
      else case (x, y) of
        (Num a, Num b) \<Rightarrow> finite_result (a + b)
      | (PosInf, NegInf) \<Rightarrow> NaN
      | (NegInf, PosInf) \<Rightarrow> NaN
      | (PosInf, _) \<Rightarrow> PosInf
      | (_, PosInf) \<Rightarrow> PosInf
      | _ \<Rightarrow> NegInf)"

text \<open>
  \<open>Math.pow(base, exponent)\<close> for an exponent that is a non-negative integer: the result is
  1 for exponent 0, whatever the base.
\<close>

definition math_pow :: "jsnum \<Rightarrow> nat \<Rightarrow> jsnum" where
  "math_pow x e =
     (if e = 0 then Num 1
      else case x of
        NaN \<Rightarrow> NaN
      | Num a \<Rightarrow> finite_result (a ^ e)
      | PosInf \<Rightarrow> PosInf
      | NegInf \<Rightarrow> if odd e then NegInf else PosInf)"

text \<open>\<open>Math.round\<close> rounds a finite value half up and leaves the others as they are.\<close>

definition math_round :: "jsnum \<Rightarrow> jsnum" where
  "math_round x = (case x of Num a \<Rightarrow> Num (of_int \<lfloor>a + 1 / 2\<rfloor>) | _ \<Rightarrow> x)"

text \<open>The comparisons \<open><=\<close> and \<open><\<close>: false as soon as one side is \<open>NaN\<close>.\<close>

definition js_le :: "jsnum \<Rightarrow> jsnum \<Rightarrow> bool" where
  "js_le x y =
     (case (x, y) of
        (NaN, _) \<Rightarrow> False
      | (_, NaN) \<Rightarrow> False
      | (NegInf, _) \<Rightarrow> True
      | (_, PosInf) \<Rightarrow> True
      | (Num a, Num b) \<Rightarrow> a \<le> b
      | _ \<Rightarrow> False)"

definition js_lt :: "jsnum \<Rightarrow> jsnum \<Rightarrow> bool" where
  "js_lt x y = (js_le x y \<and> x \<noteq> y)"

text \<open>\<open>Math.min\<close> of two numbers: \<open>NaN\<close> if either is \<open>NaN\<close>.\<close>

definition math_min :: "jsnum \<Rightarrow> jsnum \<Rightarrow> jsnum" where
  "math_min x y = (if x = NaN \<or> y = NaN then NaN else if js_le x y then x else y)"

record BackoffPolicy =
  initialMs :: jsnum
  maxMs :: jsnum
  factor :: jsnum
  jitter :: jsnum

definition computeBackoff :: "BackoffPolicy \<Rightarrow> int \<Rightarrow> real \<Rightarrow> jsnum" where
  "computeBackoff policy attempt random =
     (let exponent = max (attempt - 1) 0;
          base = js_mul (initialMs policy) (math_pow (factor policy) (nat exponent));
          jitterAmount = js_mul (js_mul base (jitter policy)) (Num random)
      in math_min (maxMs policy) (math_round (js_add base jitterAmount)))"

section \<open>Credential save queue (src/utils/creds-queue.ts)\<close>





















section \<open>Inbound debouncer (src/utils/debouncer.ts, createInboundDebouncer)\<close>

text \<open>
  A buffer holds its items and the time at which its pending timer fires. The buffers
  form a \<open>Map\<close> from key to buffer. The batch handler \<open>onFlush\<close> and the error callback
  \<open>onError\<close> are the caller's: each either completes or throws. The state records every
  batch handed to \<open>onFlush\<close> and every failure handed to \<open>onError\<close>.
\<close>

record 'a DebounceBuffer =
  items :: "'a list"
  timeout :: "int option"

record 'a DebouncerOptions =
  debounceMs :: int
  buildKey :: "'a \<Rightarrow> string option"
  shouldDebounce :: "('a \<Rightarrow> bool) option"
  onFlush :: "'a list \<Rightarrow> js_error option"
  onError :: "(js_error \<Rightarrow> 'a list \<Rightarrow> js_error option) option"

record 'a debouncer =
  buffers :: "(string \<times> 'a DebounceBuffer) list"
  delivered :: "'a list list"
  reported :: "(js_error \<times> 'a list) list"

definition buffers_delete :: "(string \<times> 'b) list \<Rightarrow> string \<Rightarrow> (string \<times> 'b) list" where
  "buffers_delete m key = filter (\<lambda>e. fst e \<noteq> key) m"

fun buffers_set :: "(string \<times> 'b) list \<Rightarrow> string \<Rightarrow> 'b \<Rightarrow> (string \<times> 'b) list" where
  "buffers_set [] key v = [(key, v)]"
| "buffers_set ((k', v') # m) key v =
     (if k' = key then (key, v) # m else (k', v') # buffers_set m key v)"

definition flushBuffer ::
  "'a DebouncerOptions \<Rightarrow> string \<Rightarrow> 'a DebounceBuffer \<Rightarrow> 'a debouncer \<Rightarrow> settled \<times> 'a debouncer" where
  "flushBuffer options key buffer st =
     (let st1 = st\<lparr>buffers := buffers_delete (buffers st) key\<rparr> in
      if length (items buffer) = 0 then (Fulfilled, st1)
      else
        (let st2 = st1\<lparr>delivered := delivered st1 @ [items buffer]\<rparr> in
         case onFlush options (items buffer) of
           None \<Rightarrow> (Fulfilled, st2)
         | Some err \<Rightarrow>
             (case onError options of
                None \<Rightarrow> (Fulfilled, st2)
              | Some handler \<Rightarrow>
                  (let st3 = st2\<lparr>reported := reported st2 @ [(err, items buffer)]\<rparr> in
                   case handler err (items buffer) of
                     None \<Rightarrow> (Fulfilled, st3)
                   | Some thrown \<Rightarrow> (Rejected thrown, st3)))))"

definition flushKey :: "'a DebouncerOptions \<Rightarrow> string \<Rightarrow> 'a debouncer \<Rightarrow> settled \<times> 'a debouncer" where
  "flushKey options key st =
     (case map_of (buffers st) key of
        None \<Rightarrow> (Fulfilled, st)
      | Some buffer \<Rightarrow> flushBuffer options key buffer st)"

text \<open>\<open>scheduleFlush\<close>: the buffer's timer is replaced by one firing \<open>debounceMs\<close> from now.\<close>

definition scheduleFlush ::
  "'a DebouncerOptions \<Rightarrow> int \<Rightarrow> 'a DebounceBuffer \<Rightarrow> 'a DebounceBuffer" where
  "scheduleFlush options now buffer = buffer\<lparr>timeout := Some (now + max 0 (debounceMs options))\<rparr>"

text \<open>
  \<open>enqueue(item)\<close>, called when the clock reads \<open>now\<close>. The result is how the returned
  promise settles, and the state afterwards.
\<close>

definition enqueue ::
  "'a DebouncerOptions \<Rightarrow> 'a \<Rightarrow> int \<Rightarrow> 'a debouncer \<Rightarrow> settled \<times> 'a debouncer" where
  "enqueue options item now st =
     (let key = buildKey options item;
          canDebounce = (max 0 (debounceMs options) > 0
             \<and> (case shouldDebounce options of None \<Rightarrow> True | Some p \<Rightarrow> p item))
      in if \<not> canDebounce \<or> \<not> truthy key then
           (case (case key of
                    Some k \<Rightarrow>
                      if k \<noteq> [] \<and> map_of (buffers st) k \<noteq> None
                      then flushKey options k st else (Fulfilled, st)
                  | None \<Rightarrow> (Fulfilled, st)) of
              (Rejected thrown, st1) \<Rightarrow> (Rejected thrown, st1)
            | (Fulfilled, st1) \<Rightarrow>
                (let st2 = st1\<lparr>delivered := delivered st1 @ [[item]]\<rparr> in
                 case onFlush options [item] of
                   None \<Rightarrow> (Fulfilled, st2)
                 | Some err \<Rightarrow> (Rejected err, st2)))
         else
           (case key of
              None \<Rightarrow> (Fulfilled, st)
            | Some k \<Rightarrow>
                (case map_of (buffers st) k of
                   Some existing \<Rightarrow>
                     (Fulfilled,
                      st\<lparr>buffers := buffers_set (buffers st) k
                           (scheduleFlush options now (existing\<lparr>items := items existing @ [item]\<rparr>))\<rparr>)
                 | None \<Rightarrow>
                     (Fulfilled,
                      st\<lparr>buffers := buffers_set (buffers st) k
                           (scheduleFlush options now \<lparr>items = [item], timeout = None\<rparr>)\<rparr>))))"

text \<open>The timer callback: \<open>void flushBuffer(key, buffer)\<close> for the buffer it was set on.\<close>

definition timer_fires :: "'a DebouncerOptions \<Rightarrow> string \<Rightarrow> 'a debouncer \<Rightarrow> settled \<times> 'a debouncer" where
  "timer_fires options key st =
     (case map_of (buffers st) key of
        None \<Rightarrow> (Fulfilled, st)
      | Some buffer \<Rightarrow> flushBuffer options key buffer st)"

section \<open>Concrete inputs for the examples\<close>









text \<open>A batch handler that always throws, an error callback that returns normally.\<close>

definition throwing_handler :: "string list \<Rightarrow> js_error option" where
  "throwing_handler batch = Some (Error ''handler failed'')"

definition quiet_reporter :: "js_error \<Rightarrow> string list \<Rightarrow> js_error option" where
  "quiet_reporter err batch = None"

definition chat_key :: "string \<Rightarrow> string option" where
  "chat_key item = Some ''chat:user''"

definition no_lid_table :: "string \<rightharpoonup> string" where
  "no_lid_table lid = None"

text \<open>A stand-in regular-expression engine: every pattern is valid and matches literally.\<close>

definition literal_regex :: "string \<Rightarrow> string \<Rightarrow> bool option" where
  "literal_regex pattern text = Some (str_includes text pattern)"


section \<open>Deduplication cache: size bound, pruning and the duplicate window\<close>

lemma delete_each_filter: "delete_each ks c = filter (\<lambda>e. fst e \<notin> set ks) c"
proof (induction ks arbitrary: c)
  case Nil
  show ?case by (simp add: delete_each_def)
next
  case (Cons k ks)
  have "delete_each (k # ks) c = delete_each ks (cache_delete c k)"
    by (simp add: delete_each_def)
  also have "\<dots> = filter (\<lambda>e. fst e \<notin> set ks) (filter (\<lambda>e. fst e \<noteq> k) c)"
    by (simp add: Cons.IH cache_delete_def)
  also have "\<dots> = filter (\<lambda>e. fst e \<notin> set (k # ks)) c"
    by (auto intro: filter_cong)
  finally show ?case .
qed

lemma length_filter_sorted_prefix:
  "length (filter (\<lambda>e. fst e \<notin> set (map fst (take n (sort_key snd c)))) c) \<le> length c - n"
proof -
  let ?S = "sort_key snd c"
  let ?P = "\<lambda>e. fst e \<notin> set (map fst (take n ?S))"
  have "mset (filter ?P c) = mset (filter ?P ?S)"
    by simp
  then have a: "length (filter ?P c) = length (filter ?P ?S)"
    by (metis size_mset)
  have b: "filter ?P ?S = filter ?P (take n ?S) @ filter ?P (drop n ?S)"
    by (metis append_take_drop_id filter_append)
  have c: "filter ?P (take n ?S) = []"
    by (auto simp: filter_empty_conv)
  have "length (filter ?P (drop n ?S)) \<le> length (drop n ?S)"
    by (rule length_filter_le)
  then have "length (filter ?P ?S) \<le> length c - n"
    using b c by simp
  then show ?thesis using a by simp
qed

lemma prune_length: "length (prune opts now c) \<le> maxSize opts"
proof -
  let ?c1 = "delete_each (map fst (filter (\<lambda>e. now - snd e > ttlMs opts) c)) c"
  show ?thesis
  proof (cases "length ?c1 > maxSize opts")
    case True
    have "length (delete_each (map fst (take (length ?c1 - maxSize opts) (sort_key snd ?c1))) ?c1)
          \<le> length ?c1 - (length ?c1 - maxSize opts)"
      unfolding delete_each_filter [of "map fst (take (length ?c1 - maxSize opts) (sort_key snd ?c1))"]
      by (rule length_filter_sorted_prefix)
    then show ?thesis using True by (simp add: prune_def Let_def)
  next
    case False
    then show ?thesis by (simp add: prune_def Let_def)
  qed
qed

lemma cache_set_length_existing:
  "map_of c k = Some v \<Longrightarrow> length (cache_set c k v') = length c"
  by (induction c) (auto split: if_splits)

lemma check_length:
  "length c \<le> maxSize opts \<Longrightarrow> length (snd (check opts key now c)) \<le> maxSize opts"
  by (auto simp: check_def cache_get_def prune_length cache_set_length_existing
           split: option.splits)

lemma checks_length:
  "length c \<le> maxSize opts \<Longrightarrow> length (checks opts calls c) \<le> maxSize opts"
proof (induction calls arbitrary: c)
  case Nil
  then show ?case by (simp add: checks_def)
next
  case (Cons call calls)
  have "checks opts (call # calls) c = checks opts calls (snd (check opts (fst call) (snd call) c))"
    by (simp add: checks_def)
  then show ?case using Cons.IH [OF check_length [OF Cons.prems]] by simp
qed

lemma prune_no_expired:
  "e \<in> set (prune opts now c) \<Longrightarrow> now - snd e \<le> ttlMs opts"
  by (fastforce simp: prune_def Let_def delete_each_filter split: if_splits)






















lemma cache_set_length_le: "length (cache_set c k v) \<le> Suc (length c)"
  by (induction c) auto









lemma reachable_length: "length (checks opts calls createDedupeCache) \<le> maxSize opts"
  by (rule checks_length) (simp add: createDedupeCache_def)


text \<open>
  Claim C6. After any call to \<open>check\<close>, whatever calls came before it on a cache made by
  \<open>createDedupeCache\<close>, the cache holds at most \<open>maxSize\<close> entries.
\<close>

theorem dedupe_size_bounded:
  "length (snd (check opts key now (checks opts calls createDedupeCache))) \<le> maxSize opts"
  by (rule check_length) (rule reachable_length)

text \<open>An instance: with a cap of two, the third distinct key leaves two entries.\<close>

theorem dedupe_size_bounded_witness:
  "length (snd (check \<lparr>ttlMs = 1000, maxSize = 2\<rparr> (Some ''c'') 3
      (checks \<lparr>ttlMs = 1000, maxSize = 2\<rparr> [(Some ''a'', 1), (Some ''b'', 2)] createDedupeCache)))
   \<le> maxSize \<lparr>ttlMs = 1000, maxSize = 2\<rparr>"
  by (rule dedupe_size_bounded)

text \<open>
  Claim C7, as amended. A call \<open>check(k)\<close> that records \<open>k\<close> (it returns false for a
  non-empty key) prunes: afterwards no entry is older than \<open>ttlMs\<close> at the call's clock
  value. A call that finds a live duplicate (it returns true) only refreshes the
  timestamp of \<open>k\<close> and leaves every other entry as it was.
\<close>

theorem check_prunes_on_insert:
  assumes "k \<noteq> []"
  shows "(\<not> fst (check opts (Some k) now c) \<longrightarrow>
            (\<forall>e \<in> set (snd (check opts (Some k) now c)). now - snd e \<le> ttlMs opts))
       \<and> (fst (check opts (Some k) now c) \<longrightarrow>
            snd (check opts (Some k) now c) = cache_set c k now)"
  using assms
  by (auto simp: check_def split: option.splits if_splits dest: prune_no_expired)

theorem check_prunes_on_insert_witness:
  "''b'' \<noteq> []
   \<and> \<not> fst (check \<lparr>ttlMs = 10, maxSize = 10\<rparr> (Some ''b'') 12 [(''a'', 0)])
   \<and> snd (check \<lparr>ttlMs = 10, maxSize = 10\<rparr> (Some ''b'') 12 [(''a'', 0)]) = [(''b'', 12)]
   \<and> 12 - snd (''b'', 12 :: int) \<le> ttlMs \<lparr>ttlMs = 10, maxSize = 10\<rparr>"
proof -
  let ?o = "\<lparr>ttlMs = 10, maxSize = 10\<rparr>"
  have k: "''b'' \<noteq> []" by simp
  have r: "check ?o (Some ''b'') 12 [(''a'', 0)] = (False, [(''b'', 12)])"
    by (simp add: check_def cache_get_def prune_def delete_each_def cache_delete_def)
  then have nf: "\<not> fst (check ?o (Some ''b'') 12 [(''a'', 0)])"
    and mem: "(''b'', 12) \<in> set (snd (check ?o (Some ''b'') 12 [(''a'', 0)]))"
    by simp_all
  from check_prunes_on_insert [OF k, of ?o 12 "[(''a'', 0)]"] nf mem
  have "12 - snd (''b'', 12 :: int) \<le> ttlMs ?o" by blast
  then show ?thesis using k r by simp
qed

text \<open>
  Claim C7 as stated fails: a check that finds a duplicate returns before \<open>prune\<close> runs.
  With a window of 10, key \<open>a\<close> checked at 0 and key \<open>b\<close> at 5 and again at 12, the last
  call returns true and the entry of \<open>a\<close>, then 12 old, stays in the cache.
\<close>

theorem duplicate_check_keeps_expired_counterexample:
  "fst (check \<lparr>ttlMs = 10, maxSize = 10\<rparr> (Some ''b'') 12
      (checks \<lparr>ttlMs = 10, maxSize = 10\<rparr> [(Some ''a'', 0), (Some ''b'', 5)] createDedupeCache))
   \<and> (''a'', 0) \<in> set (snd (check \<lparr>ttlMs = 10, maxSize = 10\<rparr> (Some ''b'') 12
      (checks \<lparr>ttlMs = 10, maxSize = 10\<rparr> [(Some ''a'', 0), (Some ''b'', 5)] createDedupeCache)))
   \<and> 12 - (0 :: int) > ttlMs \<lparr>ttlMs = 10, maxSize = 10\<rparr>"
  by (simp add: checks_def check_def cache_get_def prune_def delete_each_def cache_delete_def
        createDedupeCache_def)













section \<open>Identity resolver: fail-safe resolution\<close>

lemma resolve_non_lid:
  "\<not> isLid (Some chatId) \<Longrightarrow> resolveSendJid chatId sock lidMapper = Inr chatId"
  by (simp add: resolveSendJid_def)

lemma resolve_self_chat:
  "isLid (Some chatId) \<Longrightarrow> chatId = selfChatLid lidMapper \<Longrightarrow> myNumber lidMapper \<noteq> [] \<Longrightarrow>
   resolveSendJid chatId sock lidMapper = Inr (myNumber lidMapper @ ''@s.whatsapp.net'')"
  by (simp add: resolveSendJid_def)

lemma resolve_unmapped:
  "isLid (Some chatId) \<Longrightarrow> chatId \<noteq> selfChatLid lidMapper \<Longrightarrow>
   signalLookup sock chatId = None \<Longrightarrow> lidToJid lidMapper chatId = None \<Longrightarrow>
   resolveSendJid chatId sock lidMapper = Inl (Error ''Cannot send to unknown LID - no mapping found'')"
  by (simp add: resolveSendJid_def truthy_def)

lemma resolve_never_guesses:
  "resolveSendJid chatId sock lidMapper = Inr jid \<Longrightarrow>
     (\<not> isLid (Some chatId) \<and> jid = chatId)
   \<or> (chatId = selfChatLid lidMapper \<and> jid = myNumber lidMapper @ ''@s.whatsapp.net'')
   \<or> signalLookup sock chatId = Some jid
   \<or> lidToJid lidMapper chatId = Some jid"
  by (auto simp: resolveSendJid_def truthy_def Let_def split: if_splits option.splits)

text \<open>
  Claim C1, as amended. A non-linked identifier is returned unchanged. A linked identifier
  equal to the self-chat identifier resolves to the bot's own address
  \<open>myNumber@s.whatsapp.net\<close> when the bot's number is set (non-empty). A linked
  identifier that is not the self-chat identifier and has no entry in the platform table
  nor in the manual table raises the error. Whatever address is returned is the
  identifier itself (when not linked), the bot's own address for the self-chat
  identifier, or an entry of one of the two tables: never a guess.
\<close>

theorem resolveSendJid_fail_safe:
  "(\<not> isLid (Some chatId) \<longrightarrow> resolveSendJid chatId sock lidMapper = Inr chatId)
   \<and> (isLid (Some chatId) \<and> chatId = selfChatLid lidMapper \<and> myNumber lidMapper \<noteq> [] \<longrightarrow>
        resolveSendJid chatId sock lidMapper = Inr (myNumber lidMapper @ ''@s.whatsapp.net''))
   \<and> (isLid (Some chatId) \<and> chatId \<noteq> selfChatLid lidMapper
        \<and> signalLookup sock chatId = None \<and> lidToJid lidMapper chatId = None \<longrightarrow>
        resolveSendJid chatId sock lidMapper
          = Inl (Error ''Cannot send to unknown LID - no mapping found''))
   \<and> (\<forall>jid. resolveSendJid chatId sock lidMapper = Inr jid \<longrightarrow>
          (\<not> isLid (Some chatId) \<and> jid = chatId)
        \<or> (chatId = selfChatLid lidMapper \<and> jid = myNumber lidMapper @ ''@s.whatsapp.net'')
        \<or> signalLookup sock chatId = Some jid
        \<or> lidToJid lidMapper chatId = Some jid)"
proof (intro conjI impI allI)
  assume "\<not> isLid (Some chatId)"
  then show "resolveSendJid chatId sock lidMapper = Inr chatId"
    by (rule resolve_non_lid)
next
  assume h: "isLid (Some chatId) \<and> chatId = selfChatLid lidMapper \<and> myNumber lidMapper \<noteq> []"
  from h have a: "isLid (Some chatId)" by (rule conjunct1)
  from h have b: "chatId = selfChatLid lidMapper" by blast
  from h have c: "myNumber lidMapper \<noteq> []" by blast
  from a b c
  show "resolveSendJid chatId sock lidMapper = Inr (myNumber lidMapper @ ''@s.whatsapp.net'')"
    by (rule resolve_self_chat)
next
  assume h: "isLid (Some chatId) \<and> chatId \<noteq> selfChatLid lidMapper
        \<and> signalLookup sock chatId = None \<and> lidToJid lidMapper chatId = None"
  from h have a: "isLid (Some chatId)" by (rule conjunct1)
  from h have b: "chatId \<noteq> selfChatLid lidMapper" by blast
  from h have c: "signalLookup sock chatId = None" by blast
  from h have d: "lidToJid lidMapper chatId = None" by blast
  from a b c d
  show "resolveSendJid chatId sock lidMapper
          = Inl (Error ''Cannot send to unknown LID - no mapping found'')"
    by (rule resolve_unmapped)
next
  fix jid
  assume "resolveSendJid chatId sock lidMapper = Inr jid"
  then show "(\<not> isLid (Some chatId) \<and> jid = chatId)
        \<or> (chatId = selfChatLid lidMapper \<and> jid = myNumber lidMapper @ ''@s.whatsapp.net'')
        \<or> signalLookup sock chatId = Some jid
        \<or> lidToJid lidMapper chatId = Some jid"
    by (rule resolve_never_guesses)
qed

text \<open>
  Instances: a phone-number address passes through, the self-chat identifier resolves to
  the bot's own address, and an unknown linked identifier raises.
\<close>

theorem resolveSendJid_fail_safe_witness:
  "\<not> isLid (Some ''15551234567@s.whatsapp.net'')
   \<and> resolveSendJid ''15551234567@s.whatsapp.net'' \<lparr>signalRepository = None\<rparr>
        \<lparr>selfChatLid = ''1@lid'', myNumber = ''15550000000'', lidToJid = no_lid_table\<rparr>
      = Inr ''15551234567@s.whatsapp.net''
   \<and> isLid (Some ''1@lid'')
   \<and> resolveSendJid ''1@lid'' \<lparr>signalRepository = None\<rparr>
        \<lparr>selfChatLid = ''1@lid'', myNumber = ''15550000000'', lidToJid = no_lid_table\<rparr>
      = Inr ''15550000000@s.whatsapp.net''
   \<and> isLid (Some ''2@lid'')
   \<and> resolveSendJid ''2@lid'' \<lparr>signalRepository = None\<rparr>
        \<lparr>selfChatLid = ''1@lid'', myNumber = ''15550000000'', lidToJid = no_lid_table\<rparr>
      = Inl (Error ''Cannot send to unknown LID - no mapping found'')"
proof -
  let ?sock = "\<lparr>signalRepository = None\<rparr>"
  let ?m = "\<lparr>selfChatLid = ''1@lid'', myNumber = ''15550000000'', lidToJid = no_lid_table\<rparr>"
  have a: "\<not> isLid (Some ''15551234567@s.whatsapp.net'')" by (simp add: isLid_def)
  have b: "isLid (Some ''1@lid'')" by (simp add: isLid_def)
  have c: "isLid (Some ''2@lid'')" by (simp add: isLid_def)
  have none: "signalLookup ?sock ''2@lid'' = None \<and> lidToJid ?m ''2@lid'' = None"
    by (simp add: signalLookup_def no_lid_table_def)
  from resolveSendJid_fail_safe [of "''15551234567@s.whatsapp.net''" ?sock ?m] a
  have ra: "resolveSendJid ''15551234567@s.whatsapp.net'' ?sock ?m = Inr ''15551234567@s.whatsapp.net''"
    by blast
  from resolveSendJid_fail_safe [of "''1@lid''" ?sock ?m] b
  have rb: "resolveSendJid ''1@lid'' ?sock ?m = Inr ''15550000000@s.whatsapp.net''"
    by simp
  from resolveSendJid_fail_safe [of "''2@lid''" ?sock ?m] c none
  have rc: "resolveSendJid ''2@lid'' ?sock ?m = Inl (Error ''Cannot send to unknown LID - no mapping found'')"
    by simp
  show ?thesis using a b c ra rb rc by blast
qed

text \<open>
  Claim C1 as stated fails where the bot's number is empty: the guard
  \<open>chatId === selfChatLid && myNumber\<close> is then false, and the self-chat identifier is
  looked up like any other; with no mapping the call raises instead of returning the
  bot's own address.
\<close>

theorem resolveSendJid_self_chat_counterexample:
  "isLid (Some ''1@lid'')
   \<and> ''1@lid'' = selfChatLid \<lparr>selfChatLid = ''1@lid'', myNumber = [], lidToJid = no_lid_table\<rparr>
   \<and> resolveSendJid ''1@lid'' \<lparr>signalRepository = None\<rparr>
        \<lparr>selfChatLid = ''1@lid'', myNumber = [], lidToJid = no_lid_table\<rparr>
      = Inl (Error ''Cannot send to unknown LID - no mapping found'')"
  by (simp add: resolveSendJid_def isLid_def signalLookup_def truthy_def no_lid_table_def)

section \<open>Mention detection: the native mention list\<close>

text \<open>
  Where the list check is sound: a non-empty native list none of whose entries normalises
  to what the bot's real address or linked identifier normalises to gives "not
  mentioned", whatever the text, the patterns and the reply context are.
\<close>

lemma native_list_without_match_denies:
  assumes "mentionedJids params = Some js" and "js \<noteq> []"
    and "\<forall>jid \<in> set js. normalizeJid (Some jid) \<noteq> normalizeJid (selfJid (config params))
                       \<and> normalizeJid (Some jid) \<noteq> normalizeJid (selfLid (config params))"
  shows "detectMention regex_test params
           = \<lparr>wasMentioned = False, implicitMention = False, methodUsed = None\<rparr>"
  using assms by (auto simp: detectMention_def Let_def list_ex_iff)

text \<open>
  The reply check refuses an empty normalised identifier (\<open>replyJidNorm && ...\<close>): a reply
  to a sender whose identifier normalises to the empty string is not a reply to the bot,
  even when the bot's linked identifier is unset.
\<close>

lemma reply_check_guards_empty:
  "detectMention literal_regex
     \<lparr>body = ''hello'', mentionedJids = None,
      replyToSenderJid = Some '':5'', replyToSenderE164 = None,
      config = \<lparr>mentionPatterns = [], selfE164 = None,
                selfJid = Some ''15551234567@s.whatsapp.net'', selfLid = None\<rparr>\<rparr>
   = \<lparr>wasMentioned = False, implicitMention = False, methodUsed = None\<rparr>"
  by (simp add: detectMention_def Let_def normalizeJid_def digit_def truthy_def
        normalizeMentionText_def trim_def whitespace_def)

text \<open>
  Claim C9, evaluated on the code. The bot's linked identifier is unset (\<open>null\<close>), so it
  normalises to the empty string. A native mention list whose only entry is \<open>:5\<close>, or the
  empty string, does not contain the bot's real address or linked identifier; yet the
  entry also normalises to the empty string, the comparison succeeds, and the result is
  "mentioned" by method \<open>jid\<close>. The list check lacks the guard against the empty string
  that the reply check has.
\<close>

theorem native_list_matches_unset_identifier:
  "detectMention literal_regex
     \<lparr>body = ''hello'', mentionedJids = Some ['':5''],
      replyToSenderJid = None, replyToSenderE164 = None,
      config = \<lparr>mentionPatterns = [], selfE164 = None,
                selfJid = Some ''15551234567@s.whatsapp.net'', selfLid = None\<rparr>\<rparr>
   = \<lparr>wasMentioned = True, implicitMention = False, methodUsed = Some Jid\<rparr>
   \<and> detectMention literal_regex
     \<lparr>body = ''hello'', mentionedJids = Some [[]],
      replyToSenderJid = None, replyToSenderE164 = None,
      config = \<lparr>mentionPatterns = [], selfE164 = None,
                selfJid = Some ''15551234567@s.whatsapp.net'', selfLid = None\<rparr>\<rparr>
   = \<lparr>wasMentioned = True, implicitMention = False, methodUsed = Some Jid\<rparr>"
  by (simp add: detectMention_def Let_def normalizeJid_def digit_def)

text \<open>The same run, read off: the third party's entry \<open>:5\<close> counts as a mention of the bot.\<close>

theorem native_list_matches_unset_identifier_witness:
  "wasMentioned (detectMention literal_regex
     \<lparr>body = ''hello'', mentionedJids = Some ['':5''],
      replyToSenderJid = None, replyToSenderE164 = None,
      config = \<lparr>mentionPatterns = [], selfE164 = None,
                selfJid = Some ''15551234567@s.whatsapp.net'', selfLid = None\<rparr>\<rparr>)
   \<and> normalizeJid (Some '':5'') \<noteq> ''15551234567@s.whatsapp.net''"
proof -
  have "normalizeJid (Some '':5'') = []" by (simp add: normalizeJid_def digit_def)
  then show ?thesis
    unfolding native_list_matches_unset_identifier [THEN conjunct1] by simp
qed

section \<open>Mention detection: the empty native mention list\<close>

lemma pattern_loop_iff:
  "pattern_loop regex_test patterns bodyClean
     = (\<exists>pattern \<in> set patterns. regex_test pattern bodyClean = Some True)"
  by (induction patterns) (auto split: option.splits bool.splits)

lemma detect_without_list:
  assumes "mentionedJids params = None \<or> mentionedJids params = Some []"
  shows "detectMention regex_test params =
     (if \<exists>pattern \<in> set (mentionPatterns (config params)).
           regex_test pattern (normalizeMentionText (body params)) = Some True
      then \<lparr>wasMentioned = True, implicitMention = False, methodUsed = Some Regex\<rparr>
      else if \<exists>e. selfE164 (config params) = Some e \<and> e \<noteq> []
                \<and> str_includes (filter digit (normalizeMentionText (body params))) (filter digit e)
      then \<lparr>wasMentioned = True, implicitMention = False, methodUsed = Some E164\<rparr>
      else if (normalizeJid (replyToSenderJid params) \<noteq> []
               \<and> (normalizeJid (replyToSenderJid params) = normalizeJid (selfJid (config params))
                  \<or> normalizeJid (replyToSenderJid params) = normalizeJid (selfLid (config params))))
            \<or> (truthy (selfE164 (config params)) \<and> truthy (replyToSenderE164 params)
                \<and> selfE164 (config params) = replyToSenderE164 params)
      then \<lparr>wasMentioned = True, implicitMention = True, methodUsed = Some Reply\<rparr>
      else \<lparr>wasMentioned = False, implicitMention = False, methodUsed = None\<rparr>)"
proof -
  have guard: "(case mentionedJids params of None \<Rightarrow> False | Some js \<Rightarrow> length js > 0) = False"
    using assms by auto
  have phone: "\<And>P. (case selfE164 (config params) of None \<Rightarrow> False | Some e \<Rightarrow> e \<noteq> [] \<and> P e)
      = (\<exists>e. selfE164 (config params) = Some e \<and> e \<noteq> [] \<and> P e)"
    by (cases "selfE164 (config params)") simp_all
  show ?thesis
    unfolding detectMention_def Let_def guard pattern_loop_iff phone
    by (simp only: if_False)
qed

text \<open>
  Claim C10. An empty native mention list is treated exactly as no list at all, and it
  does not deny the mention: the result is decided by the pattern check (some valid
  configured pattern matches the cleaned text), else by the phone-digit check (the digits
  of the bot's number occur in the digits of the text), else by the reply check (the
  message replies to the bot), else it is "not mentioned".
\<close>

theorem detectMention_empty_list:
  "detectMention regex_test (params\<lparr>mentionedJids := Some []\<rparr>)
     = detectMention regex_test (params\<lparr>mentionedJids := None\<rparr>)
   \<and> detectMention regex_test (params\<lparr>mentionedJids := Some []\<rparr>) =
     (if \<exists>pattern \<in> set (mentionPatterns (config params)).
           regex_test pattern (normalizeMentionText (body params)) = Some True
      then \<lparr>wasMentioned = True, implicitMention = False, methodUsed = Some Regex\<rparr>
      else if \<exists>e. selfE164 (config params) = Some e \<and> e \<noteq> []
                \<and> str_includes (filter digit (normalizeMentionText (body params))) (filter digit e)
      then \<lparr>wasMentioned = True, implicitMention = False, methodUsed = Some E164\<rparr>
      else if (normalizeJid (replyToSenderJid params) \<noteq> []
               \<and> (normalizeJid (replyToSenderJid params) = normalizeJid (selfJid (config params))
                  \<or> normalizeJid (replyToSenderJid params) = normalizeJid (selfLid (config params))))
            \<or> (truthy (selfE164 (config params)) \<and> truthy (replyToSenderE164 params)
                \<and> selfE164 (config params) = replyToSenderE164 params)
      then \<lparr>wasMentioned = True, implicitMention = True, methodUsed = Some Reply\<rparr>
      else \<lparr>wasMentioned = False, implicitMention = False, methodUsed = None\<rparr>)"
proof
  have a: "detectMention regex_test (params\<lparr>mentionedJids := Some []\<rparr>)
      = (if \<exists>pattern \<in> set (mentionPatterns (config params)).
           regex_test pattern (normalizeMentionText (body params)) = Some True
      then \<lparr>wasMentioned = True, implicitMention = False, methodUsed = Some Regex\<rparr>
      else if \<exists>e. selfE164 (config params) = Some e \<and> e \<noteq> []
                \<and> str_includes (filter digit (normalizeMentionText (body params))) (filter digit e)
      then \<lparr>wasMentioned = True, implicitMention = False, methodUsed = Some E164\<rparr>
      else if (normalizeJid (replyToSenderJid params) \<noteq> []
               \<and> (normalizeJid (replyToSenderJid params) = normalizeJid (selfJid (config params))
                  \<or> normalizeJid (replyToSenderJid params) = normalizeJid (selfLid (config params))))
            \<or> (truthy (selfE164 (config params)) \<and> truthy (replyToSenderE164 params)
                \<and> selfE164 (config params) = replyToSenderE164 params)
      then \<lparr>wasMentioned = True, implicitMention = True, methodUsed = Some Reply\<rparr>
      else \<lparr>wasMentioned = False, implicitMention = False, methodUsed = None\<rparr>)"
    using detect_without_list [of "params\<lparr>mentionedJids := Some []\<rparr>" regex_test] by simp
  have b: "detectMention regex_test (params\<lparr>mentionedJids := None\<rparr>)
      = (if \<exists>pattern \<in> set (mentionPatterns (config params)).
           regex_test pattern (normalizeMentionText (body params)) = Some True
      then \<lparr>wasMentioned = True, implicitMention = False, methodUsed = Some Regex\<rparr>
      else if \<exists>e. selfE164 (config params) = Some e \<and> e \<noteq> []
                \<and> str_includes (filter digit (normalizeMentionText (body params))) (filter digit e)
      then \<lparr>wasMentioned = True, implicitMention = False, methodUsed = Some E164\<rparr>
      else if (normalizeJid (replyToSenderJid params) \<noteq> []
               \<and> (normalizeJid (replyToSenderJid params) = normalizeJid (selfJid (config params))
                  \<or> normalizeJid (replyToSenderJid params) = normalizeJid (selfLid (config params))))
            \<or> (truthy (selfE164 (config params)) \<and> truthy (replyToSenderE164 params)
                \<and> selfE164 (config params) = replyToSenderE164 params)
      then \<lparr>wasMentioned = True, implicitMention = True, methodUsed = Some Reply\<rparr>
      else \<lparr>wasMentioned = False, implicitMention = False, methodUsed = None\<rparr>)"
    using detect_without_list [of "params\<lparr>mentionedJids := None\<rparr>" regex_test] by simp
  show "detectMention regex_test (params\<lparr>mentionedJids := Some []\<rparr>)
     = detectMention regex_test (params\<lparr>mentionedJids := None\<rparr>)"
    unfolding a b ..
  show "detectMention regex_test (params\<lparr>mentionedJids := Some []\<rparr>) =
     (if \<exists>pattern \<in> set (mentionPatterns (config params)).
           regex_test pattern (normalizeMentionText (body params)) = Some True
      then \<lparr>wasMentioned = True, implicitMention = False, methodUsed = Some Regex\<rparr>
      else if \<exists>e. selfE164 (config params) = Some e \<and> e \<noteq> []
                \<and> str_includes (filter digit (normalizeMentionText (body params))) (filter digit e)
      then \<lparr>wasMentioned = True, implicitMention = False, methodUsed = Some E164\<rparr>
      else if (normalizeJid (replyToSenderJid params) \<noteq> []
               \<and> (normalizeJid (replyToSenderJid params) = normalizeJid (selfJid (config params))
                  \<or> normalizeJid (replyToSenderJid params) = normalizeJid (selfLid (config params))))
            \<or> (truthy (selfE164 (config params)) \<and> truthy (replyToSenderE164 params)
                \<and> selfE164 (config params) = replyToSenderE164 params)
      then \<lparr>wasMentioned = True, implicitMention = True, methodUsed = Some Reply\<rparr>
      else \<lparr>wasMentioned = False, implicitMention = False, methodUsed = None\<rparr>)"
    by (rule a)
qed

text \<open>
  Instances, each with an empty list: the pattern check succeeds on "hey bot, help"; with
  no pattern hit, the bot's phone digits in the text are found; with neither, a reply to
  the bot is an implicit mention; with none of the three, the bot is not mentioned.
\<close>

theorem detectMention_empty_list_witness:
  "detectMention literal_regex
     \<lparr>body = ''hey bot, help'', mentionedJids = Some [],
      replyToSenderJid = None, replyToSenderE164 = None,
      config = \<lparr>mentionPatterns = [''bot''], selfE164 = Some ''+15551234567'',
                selfJid = Some ''15551234567@s.whatsapp.net'', selfLid = None\<rparr>\<rparr>
   = \<lparr>wasMentioned = True, implicitMention = False, methodUsed = Some Regex\<rparr>
   \<and> detectMention literal_regex
     \<lparr>body = ''call 1 555 123 4567'', mentionedJids = Some [],
      replyToSenderJid = None, replyToSenderE164 = None,
      config = \<lparr>mentionPatterns = [''bot''], selfE164 = Some ''+15551234567'',
                selfJid = Some ''15551234567@s.whatsapp.net'', selfLid = None\<rparr>\<rparr>
   = \<lparr>wasMentioned = True, implicitMention = False, methodUsed = Some E164\<rparr>
   \<and> detectMention literal_regex
     \<lparr>body = ''thanks'', mentionedJids = Some [],
      replyToSenderJid = Some ''15551234567:2@s.whatsapp.net'', replyToSenderE164 = None,
      config = \<lparr>mentionPatterns = [''bot''], selfE164 = Some ''+15551234567'',
                selfJid = Some ''15551234567@s.whatsapp.net'', selfLid = None\<rparr>\<rparr>
   = \<lparr>wasMentioned = True, implicitMention = True, methodUsed = Some Reply\<rparr>
   \<and> detectMention literal_regex
     \<lparr>body = ''thanks'', mentionedJids = Some [],
      replyToSenderJid = None, replyToSenderE164 = None,
      config = \<lparr>mentionPatterns = [''bot''], selfE164 = Some ''+15551234567'',
                selfJid = Some ''15551234567@s.whatsapp.net'', selfLid = None\<rparr>\<rparr>
   = \<lparr>wasMentioned = False, implicitMention = False, methodUsed = None\<rparr>"
proof -
  let ?cfg = "\<lparr>mentionPatterns = [''bot''], selfE164 = Some ''+15551234567'',
                selfJid = Some ''15551234567@s.whatsapp.net'', selfLid = None\<rparr>"
  let ?p1 = "\<lparr>body = ''hey bot, help'', mentionedJids = None,
      replyToSenderJid = None, replyToSenderE164 = None, config = ?cfg\<rparr>"
  let ?p2 = "\<lparr>body = ''call 1 555 123 4567'', mentionedJids = None,
      replyToSenderJid = None, replyToSenderE164 = None, config = ?cfg\<rparr>"
  let ?p3 = "\<lparr>body = ''thanks'', mentionedJids = None,
      replyToSenderJid = Some ''15551234567:2@s.whatsapp.net'', replyToSenderE164 = None,
      config = ?cfg\<rparr>"
  let ?p4 = "\<lparr>body = ''thanks'', mentionedJids = None,
      replyToSenderJid = None, replyToSenderE164 = None, config = ?cfg\<rparr>"
  have t1: "normalizeMentionText ''hey bot, help'' = ''hey bot, help''"
    by (simp add: normalizeMentionText_def trim_def whitespace_def)
  have t2: "normalizeMentionText ''call 1 555 123 4567'' = ''call 1 555 123 4567''"
    by (simp add: normalizeMentionText_def trim_def whitespace_def)
  have t3: "normalizeMentionText ''thanks'' = ''thanks''"
    by (simp add: normalizeMentionText_def trim_def whitespace_def)
  from detectMention_empty_list [of literal_regex ?p1, THEN conjunct2]
  have a: "detectMention literal_regex (?p1\<lparr>mentionedJids := Some []\<rparr>)
      = \<lparr>wasMentioned = True, implicitMention = False, methodUsed = Some Regex\<rparr>"
    by (simp add: t1 literal_regex_def)
  from detectMention_empty_list [of literal_regex ?p2, THEN conjunct2]
  have b: "detectMention literal_regex (?p2\<lparr>mentionedJids := Some []\<rparr>)
      = \<lparr>wasMentioned = True, implicitMention = False, methodUsed = Some E164\<rparr>"
    by (simp add: t2 literal_regex_def digit_def)
  from detectMention_empty_list [of literal_regex ?p3, THEN conjunct2]
  have c: "detectMention literal_regex (?p3\<lparr>mentionedJids := Some []\<rparr>)
      = \<lparr>wasMentioned = True, implicitMention = True, methodUsed = Some Reply\<rparr>"
    by (simp add: t3 literal_regex_def digit_def normalizeJid_def)
  from detectMention_empty_list [of literal_regex ?p4, THEN conjunct2]
  have d: "detectMention literal_regex (?p4\<lparr>mentionedJids := Some []\<rparr>)
      = \<lparr>wasMentioned = False, implicitMention = False, methodUsed = None\<rparr>"
    by (simp add: t3 literal_regex_def digit_def normalizeJid_def truthy_def)
  show ?thesis using a b c d by simp
qed

section \<open>Backoff engine: cap, first attempt and growth\<close>

lemma threshold_above_half_range: "(2 :: real) ^ 1023 < overflow_threshold"
proof -
  have "(2 :: real) ^ 970 < 2 ^ 1023" by (rule power_strict_increasing) simp_all
  moreover have "(2 :: real) ^ 1024 = 2 * 2 ^ 1023" by simp
  ultimately show ?thesis unfolding overflow_threshold_def by linarith
qed

lemma threshold_pos: "0 < overflow_threshold"
proof -
  have "(0 :: real) < 2 ^ 1023" by simp
  then show ?thesis using threshold_above_half_range by linarith
qed

lemma finite_result_in_range:
  "- overflow_threshold < r \<Longrightarrow> r < overflow_threshold \<Longrightarrow> finite_result r = Num r"
  by (simp add: finite_result_def)

lemma finite_result_zero: "finite_result 0 = Num 0"
  using threshold_pos by (simp add: finite_result_def)

lemma finite_result_Num:
  "finite_result r = Num b \<Longrightarrow> r = b \<and> - overflow_threshold < b \<and> b < overflow_threshold"
  by (auto simp: finite_result_def split: if_splits)

lemma js_mul_Num:
  assumes "js_mul x y = Num b"
  shows "- overflow_threshold < b \<and> b < overflow_threshold"
proof -
  obtain a c where "x = Num a" and "y = Num c" and "finite_result (a * c) = Num b"
    using assms by (cases x; cases y) (auto simp: js_mul_def split: if_splits)
  then show ?thesis using finite_result_Num by blast
qed

lemma math_min_le_left: "math_min x y = NaN \<or> js_le (math_min x y) x"
  by (cases x; cases y) (auto simp: math_min_def js_le_def)

lemma math_min_not_above: "\<not> js_lt x (math_min x y)"
  by (cases x; cases y) (auto simp: math_min_def js_le_def js_lt_def)

lemma math_min_mono:
  "x \<noteq> NaN \<Longrightarrow> a \<le> b \<Longrightarrow> js_le (math_min x (Num a)) (math_min x (Num b))"
  by (cases x) (auto simp: math_min_def js_le_def)

text \<open>Without jitter the delay is the capped, rounded base, as long as the base is finite.\<close>

lemma computeBackoff_no_jitter:
  assumes "jitter policy = Num 0"
    and "js_mul (initialMs policy) (math_pow (factor policy) (nat (max (attempt - 1) 0))) = Num b"
  shows "computeBackoff policy attempt random
           = math_min (maxMs policy) (Num (of_int \<lfloor>b + 1 / 2\<rfloor>))"
proof -
  have range: "- overflow_threshold < b \<and> b < overflow_threshold"
    using assms(2) by (rule js_mul_Num)
  have j1: "js_mul (Num b) (Num 0) = Num 0"
    by (simp add: js_mul_def finite_result_zero)
  have j2: "js_mul (Num 0) (Num random) = Num 0"
    by (simp add: js_mul_def finite_result_zero)
  have s: "js_add (Num b) (Num 0) = Num b"
    using range by (simp add: js_add_def finite_result_in_range)
  show ?thesis
    unfolding computeBackoff_def Let_def assms j1 j2 s by (simp add: math_round_def)
qed

lemma base_finite:
  assumes "- overflow_threshold < a ^ e" and "a ^ e < overflow_threshold"
    and "- overflow_threshold < i * a ^ e" and "i * a ^ e < overflow_threshold"
  shows "js_mul (Num i) (math_pow (Num a) e) = Num (i * a ^ e)"
proof -
  have "math_pow (Num a) e = Num (a ^ e)"
    using assms(1,2) by (simp add: math_pow_def finite_result_in_range)
  then show ?thesis
    using assms(3,4) by (simp add: js_mul_def finite_result_in_range)
qed

lemma computeBackoff_cap: "\<not> js_lt (maxMs policy) (computeBackoff policy attempt random)"
  unfolding computeBackoff_def Let_def by (rule math_min_not_above)

lemma computeBackoff_cap_or_nan:
  "computeBackoff policy attempt random = NaN
   \<or> js_le (computeBackoff policy attempt random) (maxMs policy)"
  unfolding computeBackoff_def Let_def by (rule math_min_le_left)

lemma computeBackoff_first:
  assumes "jitter policy = Num 0" and "initialMs policy = Num i"
    and "- overflow_threshold < i" and "i < overflow_threshold" and "attempt \<le> 1"
  shows "computeBackoff policy attempt random
           = math_min (maxMs policy) (math_round (initialMs policy))"
proof -
  have e: "nat (max (attempt - 1) 0) = 0" using assms(5) by simp
  have "js_mul (initialMs policy) (math_pow (factor policy) (nat (max (attempt - 1) 0))) = Num i"
    unfolding e assms(2) using assms(3,4)
    by (simp add: math_pow_def js_mul_def finite_result_in_range)
  with assms(1) have "computeBackoff policy attempt random
           = math_min (maxMs policy) (Num (of_int \<lfloor>i + 1 / 2\<rfloor>))"
    by (rule computeBackoff_no_jitter)
  then show ?thesis by (simp add: assms(2) math_round_def)
qed

lemma round_integer: "i \<in> \<int> \<Longrightarrow> math_round (Num i) = Num i"
proof -
  assume "i \<in> \<int>"
  then obtain z :: int where i: "i = of_int z" by (auto elim: Ints_cases)
  have "\<lfloor>of_int z + (1 / 2 :: real)\<rfloor> = z" by linarith
  then show ?thesis by (simp add: math_round_def i)
qed

lemma computeBackoff_first_integer:
  assumes "jitter policy = Num 0" and "initialMs policy = Num i"
    and "- overflow_threshold < i" and "i < overflow_threshold" and "attempt \<le> 1"
    and "i \<in> \<int>" and "js_le (Num i) (maxMs policy)"
  shows "computeBackoff policy attempt random = initialMs policy"
proof -
  have "computeBackoff policy attempt random
           = math_min (maxMs policy) (math_round (initialMs policy))"
    using assms(1-5) by (rule computeBackoff_first)
  also have "\<dots> = math_min (maxMs policy) (Num i)"
    using assms(6) by (simp add: assms(2) round_integer)
  also have "\<dots> = Num i"
    using assms(7) by (cases "maxMs policy") (auto simp: math_min_def js_le_def)
  finally show ?thesis by (simp add: assms(2))
qed

lemma computeBackoff_mono:
  assumes j: "jitter policy = Num 0" and f: "factor policy = Num a" and a: "1 \<le> a"
    and i: "initialMs policy = Num i" and i0: "0 \<le> i"
    and cap: "maxMs policy \<noteq> NaN" and mn: "m \<le> n"
    and pw: "a ^ nat (max (n - 1) 0) \<le> 2 ^ 1023"
    and base: "i * a ^ nat (max (n - 1) 0) \<le> 2 ^ 1023"
  shows "js_le (computeBackoff policy m random) (computeBackoff policy n random')"
proof -
  let ?em = "nat (max (m - 1) 0)" and ?en = "nat (max (n - 1) 0)"
  have e: "?em \<le> ?en" using mn by simp
  have p: "a ^ ?em \<le> a ^ ?en" using e a by (rule power_increasing)
  have p0: "0 \<le> a ^ ?em" using a by simp
  have b: "i * a ^ ?em \<le> i * a ^ ?en" using p i0 by (rule mult_left_mono)
  have b0: "0 \<le> i * a ^ ?em" using i0 p0 by simp
  note T = threshold_above_half_range threshold_pos
  have bm: "js_mul (initialMs policy) (math_pow (factor policy) ?em) = Num (i * a ^ ?em)"
    unfolding i f using p p0 b b0 pw base T by (intro base_finite) linarith+
  have bn: "js_mul (initialMs policy) (math_pow (factor policy) ?en) = Num (i * a ^ ?en)"
    unfolding i f using p p0 b b0 pw base T by (intro base_finite) linarith+
  have rm: "computeBackoff policy m random
      = math_min (maxMs policy) (Num (of_int \<lfloor>i * a ^ ?em + 1 / 2\<rfloor>))"
    using j bm by (rule computeBackoff_no_jitter)
  have rn: "computeBackoff policy n random'
      = math_min (maxMs policy) (Num (of_int \<lfloor>i * a ^ ?en + 1 / 2\<rfloor>))"
    using j bn by (rule computeBackoff_no_jitter)
  have "\<lfloor>i * a ^ ?em + 1 / 2\<rfloor> \<le> \<lfloor>i * a ^ ?en + 1 / 2\<rfloor>"
    using b by (intro floor_mono) simp
  then have "(of_int \<lfloor>i * a ^ ?em + 1 / 2\<rfloor> :: real) \<le> of_int \<lfloor>i * a ^ ?en + 1 / 2\<rfloor>"
    by simp
  then show ?thesis unfolding rm rn using cap by (intro math_min_mono)
qed

text \<open>
  Outside the range covered below: once \<open>initialMs * factor^(n-1)\<close> overflows, the base is
  infinite, the jitter amount \<open>Infinity * 0\<close> is \<open>NaN\<close>, and so is the delay. With the
  policy of the repository's tests this happens from attempt 1016 on.
\<close>

lemma computeBackoff_overflow_nan:
  "computeBackoff \<lparr>initialMs = Num 1000, maxMs = Num 10000, factor = Num 2, jitter = Num 0\<rparr>
     1016 random = NaN"
proof -
  have small: "(2 :: real) ^ 1015 < overflow_threshold"
  proof -
    have "(2 :: real) ^ 1015 \<le> 2 ^ 1023" by (rule power_increasing) simp_all
    then show ?thesis using threshold_above_half_range by linarith
  qed
  have "(2 :: real) ^ 1024 = 512 * 2 ^ 1015"
  proof -
    have "(2 :: real) ^ 1024 = 2 ^ 9 * 2 ^ 1015" by (simp only: power_add [symmetric]) simp
    then show ?thesis by simp
  qed
  then have big: "overflow_threshold \<le> 1000 * 2 ^ 1015"
    unfolding overflow_threshold_def
    using zero_less_power [of "2 :: real" 970] zero_less_power [of "2 :: real" 1015]
    by linarith
  have p: "math_pow (Num 2) 1015 = Num (2 ^ 1015)"
    using small by (simp add: math_pow_def finite_result_def)
  have b: "js_mul (Num 1000) (Num (2 ^ 1015)) = PosInf"
    using big by (simp add: js_mul_def finite_result_def)
  have e: "nat (max (1016 - 1) 0) = (1015 :: nat)" by simp
  show ?thesis
    unfolding computeBackoff_def Let_def
    by (simp only: e BackoffPolicy.simps p b)
       (simp add: js_mul_def js_sign_def js_add_def math_round_def math_min_def)
qed

text \<open>
  Claim C8, as amended. For every policy, attempt and random draw the delay never exceeds
  \<open>maxMs\<close>: it is \<open>NaN\<close> or at most \<open>maxMs\<close>. With a jitter fraction of 0 and a finite
  \<open>initialMs\<close>, every attempt at most 1 (0 and negative ones included) yields
  \<open>min(maxMs, round(initialMs))\<close>, which is \<open>initialMs\<close> when \<open>initialMs\<close> is an integer not
  above \<open>maxMs\<close>. With a jitter fraction of 0, a growth factor of at least 1, a
  non-negative \<open>initialMs\<close> and a cap that is not \<open>NaN\<close>, the delay is non-decreasing in
  the attempt number as long as \<open>factor^(n-1)\<close> and \<open>initialMs * factor^(n-1)\<close> stay within
  \<open>2^1023\<close>; attempts beyond that range are left out.
\<close>

theorem computeBackoff_bounds:
  "\<not> js_lt (maxMs policy) (computeBackoff policy n random)
   \<and> (computeBackoff policy n random = NaN
       \<or> js_le (computeBackoff policy n random) (maxMs policy))
   \<and> (jitter policy = Num 0 \<and> initialMs policy = Num i
        \<and> - overflow_threshold < i \<and> i < overflow_threshold \<and> n \<le> 1 \<longrightarrow>
        computeBackoff policy n random = math_min (maxMs policy) (math_round (initialMs policy)))
   \<and> (jitter policy = Num 0 \<and> initialMs policy = Num i
        \<and> - overflow_threshold < i \<and> i < overflow_threshold \<and> n \<le> 1
        \<and> i \<in> \<int> \<and> js_le (Num i) (maxMs policy) \<longrightarrow>
        computeBackoff policy n random = initialMs policy)
   \<and> (jitter policy = Num 0 \<and> factor policy = Num a \<and> 1 \<le> a
        \<and> initialMs policy = Num i \<and> 0 \<le> i \<and> maxMs policy \<noteq> NaN \<and> m \<le> n
        \<and> a ^ nat (max (n - 1) 0) \<le> 2 ^ 1023 \<and> i * a ^ nat (max (n - 1) 0) \<le> 2 ^ 1023 \<longrightarrow>
        js_le (computeBackoff policy m random) (computeBackoff policy n random'))"
proof (intro conjI impI)
  show "\<not> js_lt (maxMs policy) (computeBackoff policy n random)"
    by (rule computeBackoff_cap)
next
  show "computeBackoff policy n random = NaN
       \<or> js_le (computeBackoff policy n random) (maxMs policy)"
    by (rule computeBackoff_cap_or_nan)
next
  assume h: "jitter policy = Num 0 \<and> initialMs policy = Num i
        \<and> - overflow_threshold < i \<and> i < overflow_threshold \<and> n \<le> 1"
  show "computeBackoff policy n random = math_min (maxMs policy) (math_round (initialMs policy))"
    by (rule computeBackoff_first [of policy i]) (use h in simp_all)
next
  assume h: "jitter policy = Num 0 \<and> initialMs policy = Num i
        \<and> - overflow_threshold < i \<and> i < overflow_threshold \<and> n \<le> 1
        \<and> i \<in> \<int> \<and> js_le (Num i) (maxMs policy)"
  show "computeBackoff policy n random = initialMs policy"
    by (rule computeBackoff_first_integer [of policy i]) (use h in simp_all)
next
  assume h: "jitter policy = Num 0 \<and> factor policy = Num a \<and> 1 \<le> a
        \<and> initialMs policy = Num i \<and> 0 \<le> i \<and> maxMs policy \<noteq> NaN \<and> m \<le> n
        \<and> a ^ nat (max (n - 1) 0) \<le> 2 ^ 1023 \<and> i * a ^ nat (max (n - 1) 0) \<le> 2 ^ 1023"
  show "js_le (computeBackoff policy m random) (computeBackoff policy n random')"
    by (rule computeBackoff_mono [of policy a i]) (use h in simp_all)
qed

lemma small_in_range:
  "\<bar>r\<bar> \<le> 1000000 \<Longrightarrow> - overflow_threshold < r \<and> r < overflow_threshold"
proof -
  assume r: "\<bar>r\<bar> \<le> 1000000"
  have "(2 :: real) ^ 20 \<le> 2 ^ 1023" by (rule power_increasing) simp_all
  moreover have "(1000000 :: real) < 2 ^ 20" by simp
  ultimately have "(1000000 :: real) < overflow_threshold"
    using threshold_above_half_range by linarith
  then show ?thesis using r by linarith
qed

lemma small_below_half_range: "r \<le> 1000000 \<Longrightarrow> r \<le> (2 :: real) ^ 1023"
proof -
  assume r: "r \<le> 1000000"
  have "(2 :: real) ^ 20 \<le> 2 ^ 1023" by (rule power_increasing) simp_all
  moreover have "(1000000 :: real) < 2 ^ 20" by simp
  ultimately show ?thesis using r by linarith
qed

lemma finite_result_small: "\<bar>r\<bar> \<le> 1000000 \<Longrightarrow> finite_result r = Num r"
  using small_in_range [of r] by (simp add: finite_result_in_range)

text \<open>
  An instance, the policy of the repository's tests (1000 ms, cap 10000 ms, factor 2, no
  jitter): attempts 1, 0 and -1 give 1000, attempt 2 gives no more than attempt 3, and
  attempt 10 does not exceed the cap.
\<close>

theorem computeBackoff_bounds_witness:
  "computeBackoff \<lparr>initialMs = Num 1000, maxMs = Num 10000, factor = Num 2, jitter = Num 0\<rparr> 1 0
     = Num 1000
   \<and> computeBackoff \<lparr>initialMs = Num 1000, maxMs = Num 10000, factor = Num 2, jitter = Num 0\<rparr> 0 0
     = Num 1000
   \<and> computeBackoff \<lparr>initialMs = Num 1000, maxMs = Num 10000, factor = Num 2, jitter = Num 0\<rparr> (- 1) 0
     = Num 1000
   \<and> js_le
       (computeBackoff \<lparr>initialMs = Num 1000, maxMs = Num 10000, factor = Num 2, jitter = Num 0\<rparr> 2 0)
       (computeBackoff \<lparr>initialMs = Num 1000, maxMs = Num 10000, factor = Num 2, jitter = Num 0\<rparr> 3 0)
   \<and> \<not> js_lt (Num 10000)
       (computeBackoff \<lparr>initialMs = Num 1000, maxMs = Num 10000, factor = Num 2, jitter = Num 0\<rparr> 10 0)"
proof -
  let ?p = "\<lparr>initialMs = Num 1000, maxMs = Num 10000, factor = Num 2, jitter = Num 0\<rparr>"
  have range: "- overflow_threshold < 1000 \<and> (1000 :: real) < overflow_threshold"
    by (rule small_in_range) simp
  have le: "js_le (Num 1000) (maxMs ?p)" by (simp add: js_le_def)
  have h1: "jitter ?p = Num 0 \<and> initialMs ?p = Num 1000
        \<and> - overflow_threshold < 1000 \<and> 1000 < overflow_threshold \<and> (1 :: int) \<le> 1
        \<and> (1000 :: real) \<in> \<int> \<and> js_le (Num 1000) (maxMs ?p)"
    using range le by simp
  have h0: "jitter ?p = Num 0 \<and> initialMs ?p = Num 1000
        \<and> - overflow_threshold < 1000 \<and> 1000 < overflow_threshold \<and> (0 :: int) \<le> 1
        \<and> (1000 :: real) \<in> \<int> \<and> js_le (Num 1000) (maxMs ?p)"
    using range le by simp
  have hn: "jitter ?p = Num 0 \<and> initialMs ?p = Num 1000
        \<and> - overflow_threshold < 1000 \<and> 1000 < overflow_threshold \<and> (- 1 :: int) \<le> 1
        \<and> (1000 :: real) \<in> \<int> \<and> js_le (Num 1000) (maxMs ?p)"
    using range le by simp
  have p4: "(2 :: real) ^ nat (max (3 - 1) 0) = 4" by simp
  have hm: "jitter ?p = Num 0 \<and> factor ?p = Num 2 \<and> (1 :: real) \<le> 2
        \<and> initialMs ?p = Num 1000 \<and> (0 :: real) \<le> 1000 \<and> maxMs ?p \<noteq> NaN \<and> (2 :: int) \<le> 3
        \<and> (2 :: real) ^ nat (max (3 - 1) 0) \<le> 2 ^ 1023
        \<and> 1000 * (2 :: real) ^ nat (max (3 - 1) 0) \<le> 2 ^ 1023"
    unfolding p4 using small_below_half_range [of 4] small_below_half_range [of "1000 * 4"]
    by simp
  note inst = computeBackoff_bounds [where policy = ?p and random = 0 and random' = 0]
  from inst [where n = 1 and i = 1000, THEN conjunct2, THEN conjunct2, THEN conjunct2,
      THEN conjunct1, THEN mp, OF h1]
  have a: "computeBackoff ?p 1 0 = Num 1000" by simp
  from inst [where n = 0 and i = 1000, THEN conjunct2, THEN conjunct2, THEN conjunct2,
      THEN conjunct1, THEN mp, OF h0]
  have b: "computeBackoff ?p 0 0 = Num 1000" by simp
  from inst [where n = "- 1" and i = 1000, THEN conjunct2, THEN conjunct2, THEN conjunct2,
      THEN conjunct1, THEN mp, OF hn]
  have c: "computeBackoff ?p (- 1) 0 = Num 1000" by simp
  from inst [where n = 3 and m = 2 and a = 2 and i = 1000, THEN conjunct2, THEN conjunct2,
      THEN conjunct2, THEN conjunct2, THEN mp, OF hm]
  have d: "js_le (computeBackoff ?p 2 0) (computeBackoff ?p 3 0)" .
  from inst [where n = 10, THEN conjunct1]
  have e: "\<not> js_lt (Num 10000) (computeBackoff ?p 10 0)" by simp
  show ?thesis using a b c d e by simp
qed

text \<open>
  Claim C8 as stated fails for some policies. With \<open>initialMs = 5000\<close> above the cap
  \<open>maxMs = 4000\<close>, the first attempt yields the cap, not \<open>initialMs\<close>; and with a factor
  of one half the second attempt yields less than the first.
\<close>

theorem computeBackoff_counterexample:
  "jitter \<lparr>initialMs = Num 5000, maxMs = Num 4000, factor = Num (1 / 2), jitter = Num 0\<rparr> = Num 0
   \<and> computeBackoff
        \<lparr>initialMs = Num 5000, maxMs = Num 4000, factor = Num (1 / 2), jitter = Num 0\<rparr> 1 0
       \<noteq> initialMs \<lparr>initialMs = Num 5000, maxMs = Num 4000, factor = Num (1 / 2), jitter = Num 0\<rparr>
   \<and> js_lt
       (computeBackoff
          \<lparr>initialMs = Num 5000, maxMs = Num 4000, factor = Num (1 / 2), jitter = Num 0\<rparr> 2 0)
       (computeBackoff
          \<lparr>initialMs = Num 5000, maxMs = Num 4000, factor = Num (1 / 2), jitter = Num 0\<rparr> 1 0)"
proof -
  let ?p = "\<lparr>initialMs = Num 5000, maxMs = Num 4000, factor = Num (1 / 2), jitter = Num 0\<rparr>"
  have one: "computeBackoff ?p 1 0 = Num 4000"
    by (simp add: computeBackoff_def Let_def math_pow_def js_mul_def js_add_def
          finite_result_small math_round_def math_min_def js_le_def)
  have two: "computeBackoff ?p 2 0 = Num 2500"
    by (simp add: computeBackoff_def Let_def math_pow_def js_mul_def js_add_def
          finite_result_small math_round_def math_min_def js_le_def)
  show ?thesis unfolding one two by (simp add: js_lt_def js_le_def)
qed

section \<open>Credential save queue: backup invariant and failure handling\<close>
















section \<open>Inbound debouncer: handler failures\<close>

lemma flushBuffer_reports:
  assumes "items buffer \<noteq> []" and "onFlush options (items buffer) = Some err"
    and "onError options = Some handler" and "handler err (items buffer) = None"
  shows "flushBuffer options key buffer st
    = (Fulfilled, st\<lparr>buffers := buffers_delete (buffers st) key,
                     delivered := delivered st @ [items buffer],
                     reported := reported st @ [(err, items buffer)]\<rparr>)"
  using assms by (simp add: flushBuffer_def Let_def)

lemma enqueue_debounced_fulfils:
  assumes "0 < debounceMs options" and "buildKey options item = Some k" and "k \<noteq> []"
    and "shouldDebounce options = None \<or> (\<exists>p. shouldDebounce options = Some p \<and> p item)"
  shows "fst (enqueue options item now st) = Fulfilled"
  using assms by (auto simp: enqueue_def Let_def truthy_def split: option.splits)

text \<open>
  Claim C5, evaluated on the code. With debouncing disabled (\<open>debounceMs = 0\<close>) the item
  is handed to \<open>onFlush\<close> at once, outside any \<open>try\<close>: when the handler throws, the promise
  returned by \<open>enqueue\<close> is rejected with the handler's error and the error callback is
  never called.
\<close>

theorem enqueue_immediate_failure_rejects:
  "enqueue \<lparr>debounceMs = 0, buildKey = chat_key, shouldDebounce = None,
            onFlush = throwing_handler, onError = Some quiet_reporter\<rparr>
     ''hello'' 0 \<lparr>buffers = [], delivered = [], reported = []\<rparr>
   = (Rejected (Error ''handler failed''),
      \<lparr>buffers = [], delivered = [[''hello'']], reported = []\<rparr>)"
  by (simp add: enqueue_def Let_def chat_key_def throwing_handler_def truthy_def)

text \<open>The same run, read off: the promise is rejected and nothing reaches the error callback.\<close>

theorem enqueue_immediate_failure_rejects_witness:
  "fst (enqueue \<lparr>debounceMs = 0, buildKey = chat_key, shouldDebounce = None,
            onFlush = throwing_handler, onError = Some quiet_reporter\<rparr>
     ''hello'' 0 \<lparr>buffers = [], delivered = [], reported = []\<rparr>)
     = Rejected (Error ''handler failed'')
   \<and> reported (snd (enqueue \<lparr>debounceMs = 0, buildKey = chat_key, shouldDebounce = None,
            onFlush = throwing_handler, onError = Some quiet_reporter\<rparr>
     ''hello'' 0 \<lparr>buffers = [], delivered = [], reported = []\<rparr>)) = []"
  unfolding enqueue_immediate_failure_rejects by simp

end
